theory Spec2Isabelle
  imports Complex_Main "HOL-Library.Sublist" "HOL-Library.Log_Nat"
begin

section \<open>Login test automation (automated_testing.py)\<close>

text \<open>
  The class \<open>AILoginTestAutomation\<close> drives a browser through a Selenium driver, runs
  four login scenarios and prints a report. Python strings are modelled as \<open>string\<close>
  (byte strings); an f-string is the concatenation of its pieces. Python's substring
  test \<open>a in b\<close> on strings is \<^const>\<open>sublist\<close> (contiguous containment; the empty
  string is contained in every string). What the code prints is left out, except the
  figures of the report.
\<close>

subsection \<open>Strings\<close>

text \<open>
  \<open>str.lower()\<close>: the letters \<open>A\<close> to \<open>Z\<close> are mapped to \<open>a\<close> to \<open>z\<close>, every other
  byte is left as it is.
\<close>

definition lower_char :: "char \<Rightarrow> char" where
  "lower_char c =
     (let n = (of_char c :: nat) in if 65 \<le> n \<and> n \<le> 90 then char_of (n + 32) else c)"

definition lower :: "string \<Rightarrow> string" where
  "lower s = map lower_char s"

text \<open>\<open>str(n)\<close> for a non-negative integer: its decimal digits.\<close>

definition digit_char :: "nat \<Rightarrow> char" where
  "digit_char k = char_of (48 + k)"

fun str_nat :: "nat \<Rightarrow> string" where
  "str_nat n = (if n < 10 then [digit_char n] else str_nat (n div 10) @ [digit_char (n mod 10)])"

declare str_nat.simps [simp del]

subsection \<open>Selector generation\<close>

text \<open>
  \<open>generate_possible_selectors\<close> starts from the empty list \<open>selectors\<close> and, for
  every attribute in order, extends it by the five selectors of \<open>attr_selectors\<close>.
  The loop is the recursion \<open>selectors_loop\<close> over the attribute list, with the list
  built so far as its accumulator.
\<close>

definition attr_selectors :: "string \<Rightarrow> string \<Rightarrow> string list" where
  "attr_selectors element_type attr =
     [''['' @ attr @ ''*=\"'' @ element_type @ ''\"]'',
      ''['' @ attr @ ''=\"'' @ element_type @ ''\"]'',
      ''input['' @ attr @ ''*=\"'' @ element_type @ ''\"]'',
      ''#'' @ element_type,
      ''.'' @ element_type]"

fun selectors_loop :: "string \<Rightarrow> string list \<Rightarrow> string list \<Rightarrow> string list" where
  "selectors_loop element_type [] selectors = selectors"
| "selectors_loop element_type (attr # attributes) selectors =
     selectors_loop element_type attributes (selectors @ attr_selectors element_type attr)"

definition generate_possible_selectors :: "string \<Rightarrow> string list \<Rightarrow> string list" where
  "generate_possible_selectors element_type attributes =
     selectors_loop element_type attributes []"

subsection \<open>Exceptions and the driver\<close>

text \<open>
  The exception classes the code raises, catches or can meet, each carrying its
  message, which \<open>str_exn\<close> reads as \<open>str(e)\<close> does. \<open>WebDriverException\<close> stands for
  any other exception of the driver. All of them are subclasses of \<open>Exception\<close>, so \<open>except Exception\<close> catches
  every one; \<open>except TimeoutException\<close> and \<open>except NoSuchElementException\<close> catch
  only their own constructor.
\<close>

datatype exn =
    TimeoutException string
  | NoSuchElementException string
  | WebDriverException string
  | Exception string
  | KeyError string
  | ZeroDivisionError string

fun str_exn :: "exn \<Rightarrow> string" where
  "str_exn (TimeoutException m) = m"
| "str_exn (NoSuchElementException m) = m"
| "str_exn (WebDriverException m) = m"
| "str_exn (Exception m) = m"
| "str_exn (KeyError m) = m"
| "str_exn (ZeroDivisionError m) = m"

text \<open>The name of the class of an exception, \<open>type(e).__name__\<close>.\<close>

fun exn_class :: "exn \<Rightarrow> string" where
  "exn_class (TimeoutException m) = ''TimeoutException''"
| "exn_class (NoSuchElementException m) = ''NoSuchElementException''"
| "exn_class (WebDriverException m) = ''WebDriverException''"
| "exn_class (Exception m) = ''Exception''"
| "exn_class (KeyError m) = ''KeyError''"
| "exn_class (ZeroDivisionError m) = ''ZeroDivisionError''"

text \<open>
  The browser and the clock are outside the program. They are a parameter of the model:
  a record of the calls the code makes, over an abstract state \<open>'s\<close> of the outside
  world and a type \<open>'e\<close> of element handles. Every call that can raise returns
  \<open>Inl\<close> of the exception or \<open>Inr\<close> of its value, together with the next state.

  \<^item> \<open>driver_get url\<close>: \<open>self.driver.get(url)\<close>
  \<^item> \<open>wait_until_presence selector\<close>:
    \<open>self.wait.until(EC.presence_of_element_located((By.CSS_SELECTOR, selector)))\<close>
  \<^item> \<open>find_element_by_id x\<close>, \<open>find_element_by_name x\<close>:
    \<open>self.driver.find_element(By.ID, x)\<close>, \<open>self.driver.find_element(By.NAME, x)\<close>
  \<^item> \<open>element_clear\<close>, \<open>element_send_keys\<close>, \<open>element_click\<close>: the methods of an element
  \<^item> \<open>driver_current_url\<close>, \<open>driver_page_source\<close>: the two properties of the driver
  \<^item> \<open>time_sleep\<close>, \<open>time_strftime\<close>: \<open>time.sleep(n)\<close> and
    \<open>time.strftime('%Y-%m-%d %H:%M:%S')\<close>
\<close>

record ('e, 's) driver =
  driver_get :: "string \<Rightarrow> 's \<Rightarrow> (exn + unit) \<times> 's"
  wait_until_presence :: "string \<Rightarrow> 's \<Rightarrow> (exn + 'e) \<times> 's"
  find_element_by_id :: "string \<Rightarrow> 's \<Rightarrow> (exn + 'e) \<times> 's"
  find_element_by_name :: "string \<Rightarrow> 's \<Rightarrow> (exn + 'e) \<times> 's"
  element_clear :: "'e \<Rightarrow> 's \<Rightarrow> (exn + unit) \<times> 's"
  element_send_keys :: "'e \<Rightarrow> string \<Rightarrow> 's \<Rightarrow> (exn + unit) \<times> 's"
  element_click :: "'e \<Rightarrow> 's \<Rightarrow> (exn + unit) \<times> 's"
  driver_current_url :: "'s \<Rightarrow> (exn + string) \<times> 's"
  driver_page_source :: "'s \<Rightarrow> (exn + string) \<times> 's"
  time_sleep :: "nat \<Rightarrow> 's \<Rightarrow> 's"
  time_strftime :: "'s \<Rightarrow> string"

text \<open>
  Sequencing two statements: when the first raises, the exception leaves the block and
  the second is not run.
\<close>

definition and_then ::
  "('s \<Rightarrow> (exn + 'a) \<times> 's) \<Rightarrow> ('a \<Rightarrow> 's \<Rightarrow> (exn + 'b) \<times> 's) \<Rightarrow> 's \<Rightarrow> (exn + 'b) \<times> 's" where
  "and_then m f s = (case m s of (Inl e, s') \<Rightarrow> (Inl e, s') | (Inr a, s') \<Rightarrow> f a s')"

subsection \<open>Element location\<close>

text \<open>
  The loop of \<open>find_element_with_ai\<close> over the selectors: the first selector whose
  wait returns an element ends the loop with that element (\<open>Some\<close>); a
  \<open>TimeoutException\<close> goes on to the next selector; any other exception leaves the
  function. \<open>Inr None\<close> is the loop running to its end.
\<close>

fun try_selectors :: "('e, 's) driver \<Rightarrow> string list \<Rightarrow> 's \<Rightarrow> (exn + 'e option) \<times> 's" where
  "try_selectors d [] s = (Inr None, s)"
| "try_selectors d (selector # selectors) s =
     (case wait_until_presence d selector s of
        (Inr element, s') \<Rightarrow> (Inr (Some element), s')
      | (Inl (TimeoutException m), s') \<Rightarrow> try_selectors d selectors s'
      | (Inl e, s') \<Rightarrow> (Inl e, s'))"

text \<open>The two nested \<open>try\<close> blocks after the loop.\<close>

definition direct_methods :: "('e, 's) driver \<Rightarrow> string \<Rightarrow> 's \<Rightarrow> (exn + 'e) \<times> 's" where
  "direct_methods d element_type s =
     (case find_element_by_id d element_type s of
        (Inr element, s') \<Rightarrow> (Inr element, s')
      | (Inl (NoSuchElementException m), s') \<Rightarrow>
          (case find_element_by_name d element_type s' of
             (Inr element, s'') \<Rightarrow> (Inr element, s'')
           | (Inl (NoSuchElementException m'), s'') \<Rightarrow>
               (Inl (Exception (''Could not locate '' @ element_type @ '' element'')), s'')
           | (Inl e, s'') \<Rightarrow> (Inl e, s''))
      | (Inl e, s') \<Rightarrow> (Inl e, s'))"

definition find_element_with_ai ::
  "('e, 's) driver \<Rightarrow> string \<Rightarrow> string list \<Rightarrow> 's \<Rightarrow> (exn + 'e) \<times> 's" where
  "find_element_with_ai d element_type attributes s =
     (let possible_selectors = generate_possible_selectors element_type attributes in
      case try_selectors d possible_selectors s of
        (Inl e, s') \<Rightarrow> (Inl e, s')
      | (Inr (Some element), s') \<Rightarrow> (Inr element, s')
      | (Inr None, s') \<Rightarrow> direct_methods d element_type s')"

subsection \<open>Outcome of a login\<close>

definition success_indicators :: "string list" where
  "success_indicators = [''dashboard'', ''welcome'', ''success'', ''home'']"

definition failure_indicators :: "string list" where
  "failure_indicators = [''error'', ''invalid'', ''failure'', ''login'']"

text \<open>
  One \<open>for indicator in ...\<close> loop of \<open>determine_login_result\<close>: \<open>True\<close> when the loop
  reaches its \<open>return\<close>, \<open>False\<close> when it runs to its end. \<open>url_lower\<close> is
  \<open>current_url.lower()\<close> and \<open>page_source\<close> is the lowercased page source.
\<close>

fun indicator_loop :: "string list \<Rightarrow> string \<Rightarrow> string \<Rightarrow> bool" where
  "indicator_loop [] url_lower page_source = False"
| "indicator_loop (indicator # indicators) url_lower page_source =
     (if sublist indicator url_lower \<or> sublist indicator page_source then True
      else indicator_loop indicators url_lower page_source)"

text \<open>
  \<open>login_result current_url source\<close> is the body of \<open>determine_login_result\<close> after its
  two reads of the driver: \<open>current_url\<close> is \<open>self.driver.current_url\<close> and \<open>source\<close>
  is \<open>self.driver.page_source\<close>.
\<close>

definition login_result :: "string \<Rightarrow> string \<Rightarrow> string" where
  "login_result current_url source =
     (let page_source = lower source in
      if indicator_loop success_indicators (lower current_url) page_source then ''success''
      else if indicator_loop failure_indicators (lower current_url) page_source then ''failure''
      else ''failure'')"

definition determine_login_result :: "('e, 's) driver \<Rightarrow> 's \<Rightarrow> (exn + string) \<times> 's" where
  "determine_login_result d =
     and_then (driver_current_url d) (\<lambda>current_url.
     and_then (driver_page_source d) (\<lambda>source.
     (\<lambda>s. (Inr (login_result current_url source), s))))"

subsection \<open>One scenario\<close>

record login_case =
  tc_name :: string
  tc_username :: string
  tc_password :: string
  tc_expected_result :: string

text \<open>
  The dictionary that \<open>execute_login_test\<close> returns. The key \<open>error\<close> is present only
  in the dictionary of the \<open>except\<close> branch.
\<close>

record test_result =
  test_case :: string
  username :: string
  expected :: string
  actual :: string
  status :: string
  error :: "string option"
  timestamp :: string

text \<open>The statements of the \<open>try\<close> block up to the value of \<open>actual_result\<close>.\<close>

definition login_steps :: "('e, 's) driver \<Rightarrow> login_case \<Rightarrow> 's \<Rightarrow> (exn + string) \<times> 's" where
  "login_steps d tc =
     and_then (driver_get d ''https://example.com/login'') (\<lambda>_.
     and_then (find_element_with_ai d ''username'' [''id'', ''name'', ''placeholder'']) (\<lambda>username_field.
     and_then (find_element_with_ai d ''password'' [''id'', ''name'', ''type'']) (\<lambda>password_field.
     and_then (find_element_with_ai d ''login'' [''id'', ''class'', ''value'']) (\<lambda>login_button.
     and_then (element_clear d username_field) (\<lambda>_.
     and_then (element_send_keys d username_field (tc_username tc)) (\<lambda>_.
     and_then (element_clear d password_field) (\<lambda>_.
     and_then (element_send_keys d password_field (tc_password tc)) (\<lambda>_.
     and_then (element_click d login_button) (\<lambda>_.
     and_then (\<lambda>s. (Inr (), time_sleep d 2 s)) (\<lambda>_.
     determine_login_result d))))))))))"

definition execute_login_test ::
  "('e, 's) driver \<Rightarrow> login_case \<Rightarrow> 's \<Rightarrow> test_result \<times> 's" where
  "execute_login_test d tc s =
     (case login_steps d tc s of
        (Inr actual_result, s') \<Rightarrow>
          (\<lparr>test_case = tc_name tc,
            username = tc_username tc,
            expected = tc_expected_result tc,
            actual = actual_result,
            status = (if actual_result = tc_expected_result tc then ''PASS'' else ''FAIL''),
            error = None,
            timestamp = time_strftime d s'\<rparr>, s')
      | (Inl e, s') \<Rightarrow>
          (\<lparr>test_case = tc_name tc,
            username = tc_username tc,
            expected = tc_expected_result tc,
            actual = ''error'',
            status = ''ERROR'',
            error = Some (str_exn e),
            timestamp = time_strftime d s'\<rparr>, s'))"

subsection \<open>Floating point\<close>

text \<open>
  A Python float is a binary64 number: an integer of at most 53 bits times a power of
  two, the least exponent being \<open>-1074\<close>. The model writes a float as the pair of that
  integer and that exponent; \<open>float_value\<close> is the number it denotes. An operation of
  the source on floats gives the float nearest to the exact result, a tie going to
  the one with the even integer. No float of the program is beyond the largest
  binary64 number (the rate is at most 100), so overflow is not modelled.

  \<open>round_frac n d\<close> is the integer nearest to \<open>n / d\<close>, a tie going to the even one.
  \<open>ilog2_frac n d\<close> is the integer \<open>k\<close> with \<open>2 ^ k \<le> n / d < 2 ^ (k + 1)\<close>.
  \<open>float_of_frac n d\<close> is the float nearest to \<open>n / d\<close>. In all three \<open>d\<close> is
  positive and \<open>n\<close> is not negative, in \<open>ilog2_frac\<close> \<open>n\<close> is positive as well;
  \<open>bitlen\<close> is the number of bits of an integer.
\<close>

type_synonym float64 = "int \<times> int"

definition float_value :: "float64 \<Rightarrow> rat" where
  "float_value x = of_int (fst x) * 2 powi (snd x)"

definition round_frac :: "int \<Rightarrow> int \<Rightarrow> int" where
  "round_frac n d =
     (let q = n div d; r = n mod d in
      if 2 * r < d then q
      else if d < 2 * r then q + 1
      else if even q then q else q + 1)"

definition ilog2_frac :: "int \<Rightarrow> int \<Rightarrow> int" where
  "ilog2_frac n d =
     (let k = bitlen n - bitlen d in
      if (if 0 \<le> k then 2 ^ nat k * d \<le> n else d \<le> 2 ^ nat (- k) * n) then k else k - 1)"

definition float_of_frac :: "int \<Rightarrow> int \<Rightarrow> float64" where
  "float_of_frac n d =
     (if n = 0 then (0, 0)
      else let e = max (ilog2_frac n d - 52) (- 1074) in
        if 0 \<le> e then (round_frac n (d * 2 ^ nat e), e)
        else (round_frac (n * 2 ^ nat (- e)) d, e))"

text \<open>
  \<open>a / b\<close> on two integers that are not negative (true division, \<open>b\<close> not zero), the
  conversion of such an integer to a float, and \<open>x * y\<close> on two floats.
\<close>

definition float_div :: "nat \<Rightarrow> nat \<Rightarrow> float64" where
  "float_div a b = float_of_frac (int a) (int b)"

definition float_of_nat :: "nat \<Rightarrow> float64" where
  "float_of_nat k = float_of_frac (int k) 1"

definition float_mul :: "float64 \<Rightarrow> float64 \<Rightarrow> float64" where
  "float_mul x y =
     (let m = fst x * fst y; e = snd x + snd y;
          r = (if 0 \<le> e then float_of_frac (\<bar>m\<bar> * 2 ^ nat e) 1
               else float_of_frac \<bar>m\<bar> (2 ^ nat (- e)))
      in (sgn m * fst r, snd r))"

subsection \<open>The report\<close>

text \<open>The numbers \<open>generate_test_report\<close> computes; \<open>success_rate\<close> is a float.\<close>

record report =
  total_tests :: nat
  passed_tests :: nat
  failed_tests :: nat
  error_tests :: nat
  success_rate :: float64

text \<open>
  \<open>pd.DataFrame(self.results)\<close> has one row for every dictionary and one column for
  every key that occurs. The frame of the empty list has no column, and reading
  \<open>df['status']\<close> from it raises \<open>KeyError\<close>. The division is reached only with a
  row present; its check for zero is written out all the same. In
  \<open>(passed_tests / total_tests) * 100\<close> the integer 100 is converted to a float
  before the multiplication.
\<close>

definition generate_test_report :: "test_result list \<Rightarrow> exn + report" where
  "generate_test_report results =
     (let total = length results in
      if results = [] then Inl (KeyError ''status'')
      else
        let passed = length (filter (\<lambda>r. status r = ''PASS'') results);
            failed = length (filter (\<lambda>r. status r = ''FAIL'') results);
            errors = length (filter (\<lambda>r. status r = ''ERROR'') results)
        in if total = 0 then Inl (ZeroDivisionError ''division by zero'')
           else Inr \<lparr>total_tests = total,
                     passed_tests = passed,
                     failed_tests = failed,
                     error_tests = errors,
                     success_rate = float_mul (float_div passed total) (float_of_nat 100)\<rparr>)"

text \<open>
  The format \<open>.1f\<close> on a float that is not negative: the multiple of one tenth
  nearest to the value of the float, a tie going to the even neighbour, written with
  one digit after the point. \<open>tenths\<close> is that multiple, counted in tenths.
\<close>

definition tenths :: "float64 \<Rightarrow> nat" where
  "tenths x =
     (if 0 \<le> snd x then nat (10 * fst x * 2 ^ nat (snd x))
      else nat (round_frac (10 * fst x) (2 ^ nat (- snd x))))"

definition format_1f :: "float64 \<Rightarrow> string" where
  "format_1f x = str_nat (tenths x div 10) @ ''.'' @ str_nat (tenths x mod 10)"

text \<open>The five lines of figures that the report prints.\<close>

definition report_lines :: "report \<Rightarrow> string list" where
  "report_lines rep =
     [''Total Tests: '' @ str_nat (total_tests rep),
      ''Passed: '' @ str_nat (passed_tests rep),
      ''Failed: '' @ str_nat (failed_tests rep),
      ''Errors: '' @ str_nat (error_tests rep),
      ''Success Rate: '' @ format_1f (success_rate rep) @ ''%'']"

subsection \<open>The batch\<close>

definition test_cases :: "login_case list" where
  "test_cases =
     [\<lparr>tc_name = ''Valid Credentials'', tc_username = ''testuser'',
       tc_password = ''correctpassword'', tc_expected_result = ''success''\<rparr>,
      \<lparr>tc_name = ''Invalid Username'', tc_username = ''wronguser'',
       tc_password = ''correctpassword'', tc_expected_result = ''failure''\<rparr>,
      \<lparr>tc_name = ''Invalid Password'', tc_username = ''testuser'',
       tc_password = ''wrongpassword'', tc_expected_result = ''failure''\<rparr>,
      \<lparr>tc_name = ''Empty Credentials'', tc_username = [],
       tc_password = [], tc_expected_result = ''failure''\<rparr>]"

text \<open>
  The loop of \<open>test_login_scenarios\<close>: every result is appended to \<open>self.results\<close>,
  here the argument \<open>results\<close>.
\<close>

fun scenario_loop ::
  "('e, 's) driver \<Rightarrow> login_case list \<Rightarrow> test_result list \<Rightarrow> 's \<Rightarrow> test_result list \<times> 's" where
  "scenario_loop d [] results s = (results, s)"
| "scenario_loop d (tc # tcs) results s =
     (case execute_login_test d tc s of
        (result, s') \<Rightarrow> scenario_loop d tcs (results @ [result]) s')"

text \<open>
  \<open>test_login_scenarios\<close> returns nothing in the source; the model returns what it
  leaves behind: the report or the exception of \<open>generate_test_report\<close>, the list
  \<open>self.results\<close>, and the state of the outside world.
\<close>

definition test_login_scenarios ::
  "('e, 's) driver \<Rightarrow> test_result list \<Rightarrow> 's \<Rightarrow> (exn + report) \<times> test_result list \<times> 's" where
  "test_login_scenarios d results s =
     (case scenario_loop d test_cases results s of
        (results', s') \<Rightarrow> (generate_test_report results', results', s'))"

section \<open>Vocabulary of the properties\<close>

subsection \<open>The classifier as the specification words it\<close>

text \<open>
  The specification describes a classifier \<open>classify(currentUrl, pageContent,
  successKeywords, failureKeywords)\<close> that takes its two keyword sets from the caller:
  both inputs are normalised to lower case; a success keyword found in either gives
  Success; otherwise a failure keyword found in either gives Failure; otherwise
  Failure. \<open>classify_spec\<close> follows these words, to be compared with
  \<^const>\<open>login_result\<close>, which follows the source.
\<close>

definition keyword_found :: "string list \<Rightarrow> string \<Rightarrow> string \<Rightarrow> bool" where
  "keyword_found ks current_url content =
     list_ex (\<lambda>k. sublist k current_url \<or> sublist k content) ks"

definition classify_spec :: "string \<Rightarrow> string \<Rightarrow> string list \<Rightarrow> string list \<Rightarrow> string" where
  "classify_spec currentUrl pageContent successKeywords failureKeywords =
     (if keyword_found successKeywords (lower currentUrl) (lower pageContent) then ''success''
      else if keyword_found failureKeywords (lower currentUrl) (lower pageContent) then ''failure''
      else ''failure'')"

subsection \<open>Reading a decimal numeral\<close>

text \<open>
  The number that a string of decimal digits writes, to say what \<open>str_nat\<close> has
  written.
\<close>

definition is_digit :: "char \<Rightarrow> bool" where
  "is_digit c = (48 \<le> (of_char c :: nat) \<and> (of_char c :: nat) \<le> 57)"

definition decimal_value :: "string \<Rightarrow> nat" where
  "decimal_value ds = foldl (\<lambda>n c. 10 * n + (of_char c - 48)) 0 ds"

subsection \<open>A driver that records its lookups\<close>

text \<open>
  To speak about which lookups a resolution makes, and in which order, a driver is
  wrapped so that it keeps a log: \<open>recording d\<close> behaves as \<open>d\<close> on the first component
  of its state and appends every element lookup to the second.
\<close>

datatype lookup = ByCssSelector string | ById string | ByName string

definition logged ::
  "('s \<Rightarrow> 'a \<times> 's) \<Rightarrow> lookup list \<Rightarrow> 's \<times> lookup list \<Rightarrow> 'a \<times> 's \<times> lookup list" where
  "logged call entries = (\<lambda>(s, trail). case call s of (r, s') \<Rightarrow> (r, s', trail @ entries))"

definition recording :: "('e, 's) driver \<Rightarrow> ('e, 's \<times> lookup list) driver" where
  "recording d =
     \<lparr>driver_get = (\<lambda>url. logged (driver_get d url) []),
      wait_until_presence = (\<lambda>selector. logged (wait_until_presence d selector) [ByCssSelector selector]),
      find_element_by_id = (\<lambda>x. logged (find_element_by_id d x) [ById x]),
      find_element_by_name = (\<lambda>x. logged (find_element_by_name d x) [ByName x]),
      element_clear = (\<lambda>el. logged (element_clear d el) []),
      element_send_keys = (\<lambda>el text. logged (element_send_keys d el text) []),
      element_click = (\<lambda>el. logged (element_click d el) []),
      driver_current_url = logged (driver_current_url d) [],
      driver_page_source = logged (driver_page_source d) [],
      time_sleep = (\<lambda>n (s, trail). (time_sleep d n s, trail)),
      time_strftime = (\<lambda>(s, trail). time_strftime d s)\<rparr>"

text \<open>The selectors of the CSS lookups in a log, in order.\<close>

fun css_lookups :: "lookup list \<Rightarrow> string list" where
  "css_lookups [] = []"
| "css_lookups (ByCssSelector selector # trail) = selector # css_lookups trail"
| "css_lookups (_ # trail) = css_lookups trail"

text \<open>
  \<open>all_time_out d selectors s\<close> is \<open>Some s'\<close> when, started in state \<open>s\<close>, the wait
  for every selector of the list in turn raises \<open>TimeoutException\<close>, leaving state
  \<open>s'\<close>; it is \<open>None\<close> as soon as one wait does anything else.
\<close>

fun all_time_out :: "('e, 's) driver \<Rightarrow> string list \<Rightarrow> 's \<Rightarrow> 's option" where
  "all_time_out d [] s = Some s"
| "all_time_out d (selector # selectors) s =
     (case wait_until_presence d selector s of
        (Inl (TimeoutException m), s') \<Rightarrow> all_time_out d selectors s'
      | _ \<Rightarrow> None)"

subsection \<open>Two pages to run the code on\<close>

text \<open>
  \<open>login_page\<close> is a page with a user field found by its name, a password field found
  by its id and a button found by its class. Its state is the current URL and the text
  of the two fields; a click on the button leads to the dashboard for the right
  credentials and back to the login form otherwise. Nothing on it ever raises except
  a wait for a selector it does not have.
\<close>

record page_state =
  address :: string
  user_text :: string
  pass_text :: string

definition login_page :: "(string, page_state) driver" where
  "login_page =
     \<lparr>driver_get = (\<lambda>u s. (Inr (), \<lparr>address = u, user_text = [], pass_text = []\<rparr>)),
      wait_until_presence = (\<lambda>selector s.
         if selector = ''[name*=\"username\"]'' then (Inr ''username'', s)
         else if selector = ''[id*=\"password\"]'' then (Inr ''password'', s)
         else if selector = ''.login'' then (Inr ''login'', s)
         else (Inl (TimeoutException ''Message: ''), s)),
      find_element_by_id = (\<lambda>x s. (Inl (NoSuchElementException ''Message: no such element''), s)),
      find_element_by_name = (\<lambda>x s. (Inl (NoSuchElementException ''Message: no such element''), s)),
      element_clear = (\<lambda>el s.
         (Inr (), if el = ''username'' then s\<lparr>user_text := []\<rparr>
                  else if el = ''password'' then s\<lparr>pass_text := []\<rparr> else s)),
      element_send_keys = (\<lambda>el text s.
         (Inr (), if el = ''username'' then s\<lparr>user_text := user_text s @ text\<rparr>
                  else if el = ''password'' then s\<lparr>pass_text := pass_text s @ text\<rparr> else s)),
      element_click = (\<lambda>el s.
         (Inr (), if user_text s = ''testuser'' \<and> pass_text s = ''correctpassword''
                  then s\<lparr>address := ''https://example.com/Dashboard''\<rparr>
                  else s\<lparr>address := ''https://example.com/login?error=1''\<rparr>)),
      driver_current_url = (\<lambda>s. (Inr (address s), s)),
      driver_page_source = (\<lambda>s. (Inr ''<html><body>Example</body></html>'', s)),
      time_sleep = (\<lambda>n s. s),
      time_strftime = (\<lambda>s. ''2024-01-01 00:00:00'')\<rparr>"

text \<open>
  \<open>blank_page\<close> has no element at all: every wait times out and every direct lookup
  finds nothing. Its state counts the lookups made. \<open>named_page\<close> is the same page
  with one element, found by the name \<open>username\<close> only.
\<close>

definition blank_page :: "(string, nat) driver" where
  "blank_page =
     \<lparr>driver_get = (\<lambda>u s. (Inr (), s)),
      wait_until_presence = (\<lambda>selector s. (Inl (TimeoutException ''Message: ''), Suc s)),
      find_element_by_id = (\<lambda>x s. (Inl (NoSuchElementException ''Message: no such element''), Suc s)),
      find_element_by_name = (\<lambda>x s. (Inl (NoSuchElementException ''Message: no such element''), Suc s)),
      element_clear = (\<lambda>el s. (Inr (), s)),
      element_send_keys = (\<lambda>el text s. (Inr (), s)),
      element_click = (\<lambda>el s. (Inr (), s)),
      driver_current_url = (\<lambda>s. (Inr ''about:blank'', s)),
      driver_page_source = (\<lambda>s. (Inr ''<html></html>'', s)),
      time_sleep = (\<lambda>n s. s),
      time_strftime = (\<lambda>s. ''2024-01-01 00:00:00'')\<rparr>"

definition named_page :: "(string, nat) driver" where
  "named_page =
     blank_page\<lparr>find_element_by_name := (\<lambda>x s.
        if x = ''username'' then (Inr ''the user field'', Suc s)
        else (Inl (NoSuchElementException ''Message: no such element''), Suc s))\<rparr>"

section \<open>Auxiliary facts\<close>

lemma selectors_loop_concat:
  "selectors_loop element_type attributes selectors =
     selectors @ concat (map (attr_selectors element_type) attributes)"
  by (induction attributes arbitrary: selectors) simp_all

lemma length_concat_attr_selectors:
  "length (concat (map (attr_selectors element_type) attributes)) = 5 * length attributes"
  by (induction attributes) (simp_all add: attr_selectors_def)

lemma indicator_loop_iff:
  "indicator_loop ks u p = (\<exists>k\<in>set ks. sublist k u \<or> sublist k p)"
  by (induction ks) auto

lemma keyword_found_iff:
  "keyword_found ks u p = (\<exists>k\<in>set ks. sublist k u \<or> sublist k p)"
  by (simp add: keyword_found_def list_ex_iff)

lemma lower_char_idem: "lower_char (lower_char c) = lower_char c"
  by (simp add: lower_char_def Let_def)

lemma lower_idem: "lower (lower s) = lower s"
  by (simp add: lower_def lower_char_idem)

lemma login_result_iff:
  "login_result current_url content =
     (if \<exists>k\<in>set success_indicators. sublist k (lower current_url) \<or> sublist k (lower content)
      then ''success'' else ''failure'')"
  by (simp add: login_result_def Let_def indicator_loop_iff)

lemma and_then_Inl: "m s = (Inl e, s') \<Longrightarrow> and_then m f s = (Inl e, s')"
  by (simp add: and_then_def)

lemma and_then_Inr: "m s = (Inr a, s') \<Longrightarrow> and_then m f s = f a s'"
  by (simp add: and_then_def)

lemma recording_wait:
  "wait_until_presence (recording d) selector (s, trail) =
     (fst (wait_until_presence d selector s), snd (wait_until_presence d selector s),
      trail @ [ByCssSelector selector])"
  by (simp add: recording_def logged_def split: prod.splits)

lemma recording_by_id:
  "find_element_by_id (recording d) x (s, trail) =
     (fst (find_element_by_id d x s), snd (find_element_by_id d x s), trail @ [ById x])"
  by (simp add: recording_def logged_def split: prod.splits)

lemma recording_by_name:
  "find_element_by_name (recording d) x (s, trail) =
     (fst (find_element_by_name d x s), snd (find_element_by_name d x s), trail @ [ByName x])"
  by (simp add: recording_def logged_def split: prod.splits)

lemma try_selectors_all_time_out:
  "all_time_out d selectors s = Some s1 \<Longrightarrow>
   try_selectors (recording d) selectors (s, trail) =
     (Inr None, s1, trail @ map ByCssSelector selectors)"
proof (induction selectors arbitrary: s trail)
  case Nil
  then show ?case by simp
next
  case (Cons selector selectors)
  obtain r s' where w: "wait_until_presence d selector s = (r, s')"
    by (cases "wait_until_presence d selector s")
  with Cons.prems obtain m where r: "r = Inl (TimeoutException m)"
    and rest: "all_time_out d selectors s' = Some s1"
    by (auto split: sum.splits exn.splits)
  show ?case
    using Cons.IH [OF rest, of "trail @ [ByCssSelector selector]"] w r
    by (simp add: recording_wait)
qed

lemma try_selectors_first_match:
  "all_time_out d before s = Some s1 \<Longrightarrow>
   wait_until_presence d selector s1 = (Inr element, s2) \<Longrightarrow>
   try_selectors (recording d) (before @ selector # rest) (s, trail) =
     (Inr (Some element), s2, trail @ map ByCssSelector (before @ [selector]))"
proof (induction before arbitrary: s trail)
  case Nil
  then show ?case by (simp add: recording_wait)
next
  case (Cons b before)
  obtain r s' where w: "wait_until_presence d b s = (r, s')"
    by (cases "wait_until_presence d b s")
  with Cons.prems(1) obtain m where r: "r = Inl (TimeoutException m)"
    and rest: "all_time_out d before s' = Some s1"
    by (auto split: sum.splits exn.splits)
  show ?case
    using Cons.IH [OF rest Cons.prems(2), of "trail @ [ByCssSelector b]"] w r
    by (simp add: recording_wait)
qed

lemma try_selectors_trail:
  "\<exists>k. snd (snd (try_selectors (recording d) selectors (s, trail))) =
        trail @ map ByCssSelector (take k selectors)"
proof (induction selectors arbitrary: s trail)
  case Nil
  then show ?case by simp
next
  case (Cons selector selectors)
  obtain r s' where w: "wait_until_presence d selector s = (r, s')"
    by (cases "wait_until_presence d selector s")
  show ?case
  proof (cases "\<exists>m. r = Inl (TimeoutException m)")
    case True
    then obtain m where r: "r = Inl (TimeoutException m)" by blast
    from Cons.IH [of s' "trail @ [ByCssSelector selector]"] obtain k where
      "snd (snd (try_selectors (recording d) selectors (s', trail @ [ByCssSelector selector]))) =
         (trail @ [ByCssSelector selector]) @ map ByCssSelector (take k selectors)" by blast
    then have "snd (snd (try_selectors (recording d) (selector # selectors) (s, trail))) =
         trail @ map ByCssSelector (take (Suc k) (selector # selectors))"
      using w r by (simp add: recording_wait)
    then show ?thesis by blast
  next
    case False
    then have "snd (snd (try_selectors (recording d) (selector # selectors) (s, trail))) =
         trail @ map ByCssSelector (take (Suc 0) (selector # selectors))"
      using w by (cases r; simp add: recording_wait split: exn.splits)
    then show ?thesis by blast
  qed
qed

lemma css_lookups_append: "css_lookups (xs @ ys) = css_lookups xs @ css_lookups ys"
  by (induction xs rule: css_lookups.induct) simp_all

lemma css_lookups_map: "css_lookups (map ByCssSelector xs) = xs"
  by (induction xs) simp_all

lemma direct_methods_trail:
  "\<exists>extra. snd (snd (direct_methods (recording d) element_type (s, trail))) = trail @ extra
      \<and> css_lookups extra = []"
  by (auto simp add: direct_methods_def recording_by_id recording_by_name
      split: prod.splits sum.splits exn.splits)

lemma direct_methods_recording:
  "direct_methods (recording d) element_type (s1, trail) =
     (case find_element_by_id d element_type s1 of
        (Inr element, s2) \<Rightarrow> (Inr element, s2, trail @ [ById element_type])
      | (Inl (NoSuchElementException m), s2) \<Rightarrow>
          (case find_element_by_name d element_type s2 of
             (Inr element, s3) \<Rightarrow>
               (Inr element, s3, trail @ [ById element_type, ByName element_type])
           | (Inl (NoSuchElementException m'), s3) \<Rightarrow>
               (Inl (Exception (''Could not locate '' @ element_type @ '' element'')), s3,
                trail @ [ById element_type, ByName element_type])
           | (Inl e, s3) \<Rightarrow> (Inl e, s3, trail @ [ById element_type, ByName element_type]))
      | (Inl e, s2) \<Rightarrow> (Inl e, s2, trail @ [ById element_type]))"
proof -
  obtain r1 s2 where i: "find_element_by_id d element_type s1 = (r1, s2)"
    by (cases "find_element_by_id d element_type s1")
  obtain r2 s3 where n: "find_element_by_name d element_type s2 = (r2, s3)"
    by (cases "find_element_by_name d element_type s2")
  show ?thesis
    using i n
    by (simp add: direct_methods_def recording_by_id recording_by_name
        split: sum.splits exn.splits)
qed

lemma find_element_trail_prefix:
  "prefix (css_lookups (snd (snd (find_element_with_ai (recording d) element_type attributes (s, [])))))
     (generate_possible_selectors element_type attributes)"
proof -
  let ?c = "generate_possible_selectors element_type attributes"
  obtain r s' t where t: "try_selectors (recording d) ?c (s, []) = (r, s', t)"
    by (cases "try_selectors (recording d) ?c (s, [])") auto
  from try_selectors_trail [of d ?c s "[]"] t obtain k where k: "t = map ByCssSelector (take k ?c)"
    by auto
  obtain extra where e: "snd (snd (direct_methods (recording d) element_type (s', t))) = t @ extra"
    "css_lookups extra = []"
    using direct_methods_trail [of d element_type s' t] by blast
  have "css_lookups (snd (snd (find_element_with_ai (recording d) element_type attributes (s, [])))) = take k ?c"
    using t k e
    by (auto simp add: find_element_with_ai_def Let_def css_lookups_append css_lookups_map
        split: sum.splits option.splits)
  then show ?thesis by (simp add: take_is_prefix)
qed

lemma and_then_InrE:
  assumes "and_then m f s = (Inr b, s')"
  obtains a s1 where "m s = (Inr a, s1)" and "f a s1 = (Inr b, s')"
  using assms by (auto simp add: and_then_def split: prod.splits sum.splits)

lemma login_result_cases: "login_result u c = ''success'' \<or> login_result u c = ''failure''"
  by (simp add: login_result_def Let_def)

lemma determine_login_result_Inr:
  assumes "determine_login_result d s = (Inr a, s')"
  shows "a = ''success'' \<or> a = ''failure''"
proof -
  from assms obtain u c where "a = login_result u c"
    unfolding determine_login_result_def
    by (elim and_then_InrE) auto
  then show ?thesis using login_result_cases by simp
qed

lemma login_steps_Inr:
  "login_steps d tc s = (Inr a, s') \<Longrightarrow> a = ''success'' \<or> a = ''failure''"
  unfolding login_steps_def
  by (elim and_then_InrE) (erule determine_login_result_Inr)

lemma find_element_no_hints:
  "find_element_with_ai d element_type [] s = direct_methods d element_type s"
  by (simp add: find_element_with_ai_def generate_possible_selectors_def)

lemma execute_login_test_name: "test_case (fst (execute_login_test d tc s)) = tc_name tc"
  by (simp add: execute_login_test_def split: prod.splits sum.splits)

lemma scenario_loop_append:
  "scenario_loop d (tcs @ later) results s =
     (case scenario_loop d tcs results s of (results1, s1) \<Rightarrow> scenario_loop d later results1 s1)"
  by (induction tcs arbitrary: results s) (simp_all split: prod.splits)

lemma scenario_loop_length:
  "length (fst (scenario_loop d tcs results s)) = length results + length tcs"
  by (induction tcs arbitrary: results s) (simp_all split: prod.splits)

lemma scenario_loop_names:
  "map test_case (fst (scenario_loop d tcs results s)) = map test_case results @ map tc_name tcs"
proof (induction tcs arbitrary: results s)
  case Nil
  then show ?case by simp
next
  case (Cons tc tcs)
  obtain r s1 where e: "execute_login_test d tc s = (r, s1)"
    by (cases "execute_login_test d tc s")
  then have "test_case r = tc_name tc"
    using execute_login_test_name [of d tc s] by simp
  with Cons.IH [of "results @ [r]" s1] e show ?case by simp
qed

lemma scenario_loop_extends:
  "\<exists>extra. fst (scenario_loop d tcs results s) = results @ extra"
proof (induction tcs arbitrary: results s)
  case Nil
  then show ?case by simp
next
  case (Cons tc tcs)
  obtain r s1 where e: "execute_login_test d tc s = (r, s1)"
    by (cases "execute_login_test d tc s")
  from Cons.IH [of "results @ [r]" s1] obtain extra where
    "fst (scenario_loop d tcs (results @ [r]) s1) = (results @ [r]) @ extra" by blast
  with e have "fst (scenario_loop d (tc # tcs) results s) = results @ (r # extra)" by simp
  then show ?case by blast
qed

lemma scenario_loop_keeps:
  "take (length results) (fst (scenario_loop d tcs results s)) = results"
  using scenario_loop_extends [of d tcs results s] by auto

lemma generate_test_report_nonempty:
  "results \<noteq> [] \<Longrightarrow> \<exists>rep. generate_test_report results = Inr rep \<and> total_tests rep = length results"
  by (simp add: generate_test_report_def Let_def)

lemma str_nat_digit: "n < 10 \<Longrightarrow> str_nat n = [digit_char n]"
  by (simp add: str_nat.simps)

lemma round_frac_close:
  assumes "0 < d"
  shows "\<bar>of_int (round_frac n d) - (of_int n / of_int d :: rat)\<bar> \<le> 1 / 2"
proof -
  define q r where "q = n div d" and "r = n mod d"
  have n: "n = d * q + r" unfolding q_def r_def by simp
  have r: "0 \<le> r" "r < d" using assms unfolding r_def by simp_all
  have d0: "(0::rat) < of_int d" using assms by simp
  have "(of_int n :: rat) = of_int d * of_int q + of_int r"
    unfolding n by simp
  then have frac: "(of_int n / of_int d :: rat) = of_int q + of_int r / of_int d"
    using d0 by (simp add: field_simps)
  have r0: "(0::rat) \<le> of_int r / of_int d" using r d0 by simp
  have r1: "(of_int r / of_int d :: rat) < 1" using r d0 by simp
  have rf: "round_frac n d =
      (if 2 * r < d then q else if d < 2 * r then q + 1 else if even q then q else q + 1)"
    unfolding round_frac_def q_def r_def by (simp add: Let_def)
  consider "2 * r < d" | "d < 2 * r" | "2 * r = d" by linarith
  then show ?thesis
  proof cases
    case 1
    then have "(of_int (2 * r) :: rat) < of_int d" by (simp only: of_int_less_iff)
    then have "(of_int r / of_int d :: rat) < 1 / 2" using d0 by (simp add: field_simps)
    moreover from 1 have "round_frac n d = q" by (simp add: rf)
    ultimately show ?thesis using r0 by (simp add: frac)
  next
    case 2
    then have "(of_int d :: rat) < of_int (2 * r)" by (simp only: of_int_less_iff)
    then have "(1 / 2 :: rat) < of_int r / of_int d" using d0 by (simp add: field_simps)
    moreover from 2 have "round_frac n d = q + 1" by (simp add: rf)
    ultimately show ?thesis using r1 by (simp add: frac)
  next
    case 3
    then have "(of_int (2 * r) :: rat) = of_int d" by (simp only:)
    then have h: "(of_int r / of_int d :: rat) = 1 / 2" using d0 by (simp add: field_simps)
    from 3 have "round_frac n d = q \<or> round_frac n d = q + 1" by (simp add: rf)
    then show ?thesis
    proof
      assume "round_frac n d = q"
      then show ?thesis by (simp add: frac h)
    next
      assume "round_frac n d = q + 1"
      then show ?thesis by (simp add: frac h)
    qed
  qed
qed

lemma round_frac_nonneg:
  assumes "0 \<le> n" and "0 < d"
  shows "0 \<le> round_frac n d"
proof -
  have "0 \<le> n div d" using assms by (simp add: pos_imp_zdiv_nonneg_iff)
  then show ?thesis unfolding round_frac_def by (simp add: Let_def)
qed

lemma ilog2_frac_le:
  assumes "0 < n" and "0 < d"
  shows "2 powi (ilog2_frac n d) \<le> (of_int n / of_int d :: rat)"
proof -
  define k where "k = bitlen n - bitlen d"
  have d0: "(0::rat) < of_int d" and n0: "(0::rat) < of_int n" using assms by simp_all
  have il: "ilog2_frac n d =
      (if (if 0 \<le> k then 2 ^ nat k * d \<le> n else d \<le> 2 ^ nat (- k) * n) then k else k - 1)"
    unfolding ilog2_frac_def k_def by (simp add: Let_def)
  show ?thesis
  proof (cases "if 0 \<le> k then 2 ^ nat k * d \<le> n else d \<le> 2 ^ nat (- k) * n")
    case True
    then have ik: "ilog2_frac n d = k" by (simp add: il)
    show ?thesis
    proof (cases "0 \<le> k")
      case k0: True
      with True have "2 ^ nat k * d \<le> n" by simp
      then have "(of_int (2 ^ nat k * d) :: rat) \<le> of_int n" by (simp only: of_int_le_iff)
      then have "(2::rat) ^ nat k * of_int d \<le> of_int n" by simp
      then have "(2::rat) ^ nat k \<le> of_int n / of_int d"
        using d0 by (simp add: field_simps)
      moreover have "(2::rat) powi k = 2 ^ nat k"
        using k0 by (simp add: power_int_def)
      ultimately show ?thesis by (simp only: ik)
    next
      case k0: False
      with True have "d \<le> 2 ^ nat (- k) * n" by simp
      then have "(of_int d :: rat) \<le> of_int (2 ^ nat (- k) * n)" by (simp only: of_int_le_iff)
      then have "(of_int d :: rat) \<le> 2 ^ nat (- k) * of_int n" by simp
      then have "(1::rat) / 2 ^ nat (- k) \<le> of_int n / of_int d"
        using d0 by (simp add: field_simps)
      moreover have "(2::rat) powi k = 1 / 2 ^ nat (- k)"
        using k0 by (simp add: power_int_def field_simps)
      ultimately show ?thesis by (simp only: ik)
    qed
  next
    case False
    then have ik: "ilog2_frac n d = k - 1" by (simp add: il)
    have bn: "2 ^ nat (bitlen n - 1) \<le> n" and bd: "d < 2 ^ nat (bitlen d)"
      using bitlen_bounds [OF assms(1)] bitlen_bounds [OF assms(2)] by simp_all
    have bn1: "1 \<le> bitlen n"
    proof (rule ccontr)
      assume "\<not> 1 \<le> bitlen n"
      then have "bitlen n = 0" using bitlen_nonneg [of n] by linarith
      with bitlen_bounds [OF assms(1)] have "n < 1" by simp
      with assms(1) show False by simp
    qed
    have bd0: "0 \<le> bitlen d" by (rule bitlen_nonneg)
    have "(of_int (2 ^ nat (bitlen n - 1)) :: rat) \<le> of_int n"
      using bn by (simp only: of_int_le_iff)
    then have a: "(2::rat) ^ nat (bitlen n - 1) \<le> of_int n" by simp
    have "(of_int d :: rat) < of_int (2 ^ nat (bitlen d))"
      using bd by (simp only: of_int_less_iff)
    then have b: "(of_int d :: rat) \<le> 2 ^ nat (bitlen d)" by simp
    have p0: "(0::rat) < 2 ^ nat (bitlen d)" by simp
    have "(2::rat) ^ nat (bitlen n - 1) / 2 ^ nat (bitlen d) \<le> of_int n / 2 ^ nat (bitlen d)"
      using a by (rule divide_right_mono) simp
    also have "\<dots> \<le> of_int n / of_int d"
      using b n0 d0 by (intro divide_left_mono) simp_all
    finally have c: "(2::rat) ^ nat (bitlen n - 1) / 2 ^ nat (bitlen d) \<le> of_int n / of_int d" .
    have "(2::rat) powi ((bitlen n - 1) - bitlen d) = 2 powi (bitlen n - 1) / 2 powi (bitlen d)"
      by (rule power_int_diff) simp
    moreover have "(2::rat) powi (bitlen n - 1) = 2 ^ nat (bitlen n - 1)"
      using bn1 by (simp add: power_int_def)
    moreover have "(2::rat) powi (bitlen d) = 2 ^ nat (bitlen d)"
      using bd0 by (simp add: power_int_def)
    moreover have "k - 1 = (bitlen n - 1) - bitlen d" unfolding k_def by simp
    ultimately have "(2::rat) powi (k - 1) = 2 ^ nat (bitlen n - 1) / 2 ^ nat (bitlen d)"
      by (simp only:)
    with c show ?thesis by (simp only: ik)
  qed
qed

lemma float_of_frac_fst_nonneg:
  assumes "0 \<le> n" and "0 < d"
  shows "0 \<le> fst (float_of_frac n d)"
proof -
  have "0 \<le> round_frac n (d * 2 ^ k)" for k
    using assms by (intro round_frac_nonneg) simp_all
  moreover have "0 \<le> round_frac (n * 2 ^ k) d" for k
    using assms by (intro round_frac_nonneg) simp_all
  ultimately show ?thesis
    unfolding float_of_frac_def by (simp add: Let_def)
qed

lemma float_of_frac_error:
  assumes "0 < n" and "0 < d"
  shows "\<bar>float_value (float_of_frac n d) - of_int n / of_int d\<bar>
     \<le> 2 powi (max (ilog2_frac n d - 52) (- 1074)) / 2"
proof -
  define e where "e = max (ilog2_frac n d - 52) (- 1074)"
  define x :: rat where "x = of_int n / of_int d"
  have pos: "(0::rat) < 2 powi e" by simp
  have d0: "(0::rat) < of_int d" using assms by simp
  have "\<exists>m. float_of_frac n d = (m, e) \<and> \<bar>of_int m - x / 2 powi e\<bar> \<le> 1 / 2"
  proof (cases "0 \<le> e")
    case True
    then have f: "float_of_frac n d = (round_frac n (d * 2 ^ nat e), e)"
      using assms(1) unfolding float_of_frac_def e_def by (simp add: Let_def)
    have "0 < d * 2 ^ nat e" using assms(2) by simp
    then have "\<bar>of_int (round_frac n (d * 2 ^ nat e)) - (of_int n / of_int (d * 2 ^ nat e) :: rat)\<bar> \<le> 1 / 2"
      by (rule round_frac_close)
    moreover have "(of_int n / of_int (d * 2 ^ nat e) :: rat) = x / 2 powi e"
      using True d0 unfolding x_def by (simp add: power_int_def)
    ultimately show ?thesis using f by simp
  next
    case False
    then have f: "float_of_frac n d = (round_frac (n * 2 ^ nat (- e)) d, e)"
      using assms(1) unfolding float_of_frac_def e_def by (simp add: Let_def)
    have "\<bar>of_int (round_frac (n * 2 ^ nat (- e)) d) - (of_int (n * 2 ^ nat (- e)) / of_int d :: rat)\<bar> \<le> 1 / 2"
      using assms(2) by (rule round_frac_close)
    moreover have "(of_int (n * 2 ^ nat (- e)) / of_int d :: rat) = x / 2 powi e"
      using False d0 unfolding x_def by (simp add: power_int_def field_simps)
    ultimately show ?thesis using f by simp
  qed
  then obtain m where f: "float_of_frac n d = (m, e)"
    and c: "\<bar>of_int m - x / 2 powi e\<bar> \<le> 1 / 2" by blast
  define y :: rat where "y = of_int m"
  define w :: rat where "w = 2 powi e"
  have w0: "0 < w" unfolding w_def by simp
  from c have c': "\<bar>y - x / w\<bar> \<le> 1 / 2" unfolding y_def w_def .
  have "\<bar>y * w - x\<bar> = \<bar>(y - x / w) * w\<bar>"
    using w0 by (simp add: left_diff_distrib)
  also have "\<dots> = \<bar>y - x / w\<bar> * w"
    using w0 by (simp add: abs_mult)
  also have "\<dots> \<le> 1 / 2 * w"
    using c' w0 by (intro mult_right_mono) simp_all
  finally have "\<bar>y * w - x\<bar> \<le> w / 2" by simp
  then show ?thesis
    unfolding y_def w_def x_def e_def float_value_def f by simp
qed

lemma float_of_frac_close:
  assumes "0 \<le> n" and "0 < d" and "(of_int n / of_int d :: rat) \<le> 2 powi j" and "- 1022 \<le> j"
  shows "\<bar>float_value (float_of_frac n d) - of_int n / of_int d\<bar> \<le> 2 powi (j - 53)"
proof (cases "n = 0")
  case True
  then show ?thesis by (simp add: float_of_frac_def float_value_def)
next
  case False
  with assms(1) have pos: "0 < n" by simp
  have le: "(2::rat) powi (ilog2_frac n d) \<le> 2 powi j"
    using ilog2_frac_le [OF pos assms(2)] assms(3) by (rule order_trans)
  have "ilog2_frac n d \<le> j"
  proof (rule ccontr)
    assume "\<not> ilog2_frac n d \<le> j"
    then have "j < ilog2_frac n d" by simp
    then have "(2::rat) powi j < 2 powi (ilog2_frac n d)"
      by (rule power_int_strict_increasing) simp
    with le show False by simp
  qed
  then have "max (ilog2_frac n d - 52) (- 1074) \<le> j - 52"
    using assms(4) by linarith
  then have "(2::rat) powi (max (ilog2_frac n d - 52) (- 1074)) \<le> 2 powi (j - 52)"
    by (intro power_int_increasing) simp_all
  then have "(2::rat) powi (max (ilog2_frac n d - 52) (- 1074)) / 2 \<le> 2 powi (j - 52) / 2"
    by (rule divide_right_mono) simp
  moreover note float_of_frac_error [OF pos assms(2)]
  moreover have "(2::rat) powi (j - 52) / 2 = 2 powi (j - 53)"
  proof -
    have "(2::rat) powi ((j - 53) + 1) = 2 powi (j - 53) * 2 powi 1"
      by (rule power_int_add) simp
    moreover have "(j - 53) + 1 = j - 52" by simp
    ultimately have "(2::rat) powi (j - 52) = 2 powi (j - 53) * 2"
      by (simp only: power_int_1_right)
    then show ?thesis by simp
  qed
  ultimately show ?thesis by linarith
qed

lemma float_value_nonneg: "0 \<le> fst x \<Longrightarrow> 0 \<le> float_value x"
  unfolding float_value_def by simp

lemma float_mul_fst_nonneg:
  assumes "0 \<le> fst x" and "0 \<le> fst y"
  shows "0 \<le> fst (float_mul x y)"
proof -
  have m: "0 \<le> fst x * fst y" using assms by simp
  have "0 \<le> fst (float_of_frac (\<bar>fst x * fst y\<bar> * 2 ^ k) 1)" for k
    by (rule float_of_frac_fst_nonneg) simp_all
  moreover have "0 \<le> fst (float_of_frac \<bar>fst x * fst y\<bar> (2 ^ k))" for k
    by (rule float_of_frac_fst_nonneg) simp_all
  moreover have "0 \<le> sgn (fst x * fst y)" using m by (simp add: sgn_if)
  ultimately show ?thesis
    unfolding float_mul_def by (simp add: Let_def)
qed

lemma float_mul_close:
  assumes "0 \<le> fst x" and "0 \<le> fst y"
    and "float_value x * float_value y \<le> 2 powi j" and "- 1022 \<le> j"
  shows "\<bar>float_value (float_mul x y) - float_value x * float_value y\<bar> \<le> 2 powi (j - 53)"
proof -
  define m where "m = fst x * fst y"
  define e where "e = snd x + snd y"
  have m0: "0 \<le> m" using assms(1,2) unfolding m_def by simp
  have prod: "float_value x * float_value y = of_int m * 2 powi e"
    unfolding float_value_def m_def e_def by (simp add: power_int_add)
  show ?thesis
  proof (cases "m = 0")
    case True
    then have "float_mul x y = (0, 0)"
      unfolding float_mul_def m_def [symmetric] e_def [symmetric]
      by (simp add: Let_def float_of_frac_def)
    then have a: "float_value (float_mul x y) = 0" by (simp add: float_value_def)
    from True have b: "float_value x * float_value y = 0" by (simp add: prod)
    have "(0::rat) \<le> 2 powi (j - 53)" by simp
    then show ?thesis by (simp add: a b)
  next
    case False
    with m0 have mp: "0 < m" by simp
    then have sg: "sgn m = 1" by simp
    show ?thesis
    proof (cases "0 \<le> e")
      case True
      then have fm: "float_mul x y = float_of_frac (m * 2 ^ nat e) 1"
        unfolding float_mul_def m_def [symmetric] e_def [symmetric]
        using mp by (simp add: Let_def)
      have v: "(of_int (m * 2 ^ nat e) / of_int 1 :: rat) = of_int m * 2 powi e"
        using True by (simp add: power_int_def)
      have "0 \<le> m * 2 ^ nat e" using m0 by simp
      moreover have "(0::int) < 1" by simp
      moreover have "(of_int (m * 2 ^ nat e) / of_int 1 :: rat) \<le> 2 powi j"
        using assms(3) by (simp only: v prod)
      ultimately have "\<bar>float_value (float_of_frac (m * 2 ^ nat e) 1)
          - of_int (m * 2 ^ nat e) / of_int 1\<bar> \<le> 2 powi (j - 53)"
        using assms(4) by (rule float_of_frac_close)
      then show ?thesis by (simp only: fm v prod)
    next
      case False
      then have fm: "float_mul x y = float_of_frac m (2 ^ nat (- e))"
        unfolding float_mul_def m_def [symmetric] e_def [symmetric]
        using mp by (simp add: Let_def)
      have v: "(of_int m / of_int (2 ^ nat (- e)) :: rat) = of_int m * 2 powi e"
        using False by (simp add: power_int_def field_simps)
      have "(0::int) < 2 ^ nat (- e)" by simp
      moreover have "(of_int m / of_int (2 ^ nat (- e)) :: rat) \<le> 2 powi j"
        using assms(3) by (simp only: v prod)
      ultimately have "\<bar>float_value (float_of_frac m (2 ^ nat (- e)))
          - of_int m / of_int (2 ^ nat (- e))\<bar> \<le> 2 powi (j - 53)"
        using m0 assms(4) by (intro float_of_frac_close)
      then show ?thesis by (simp only: fm v prod)
    qed
  qed
qed

lemma float_of_nat_100: "float_of_nat 100 = (7036874417766400, - 46)"
  by code_simp

lemma float_value_100: "float_value (float_of_nat 100) = 100"
  by (simp add: float_of_nat_100 float_value_def)

lemma success_rate_close:
  assumes "p \<le> t" and "0 < t"
  shows "\<bar>float_value (float_mul (float_div p t) (float_of_nat 100))
           - of_nat p / of_nat t * 100\<bar> \<le> 1 / 2 ^ 45"
proof -
  define x :: rat where "x = of_nat p / of_nat t"
  define q where "q = float_value (float_div p t)"
  define r where "r = float_value (float_mul (float_div p t) (float_of_nat 100))"
  have x0: "0 \<le> x" and x1: "x \<le> 1"
    using assms unfolding x_def by simp_all
  have xi: "x = of_int (int p) / of_int (int t)" unfolding x_def by simp
  have "of_int (int p) / of_int (int t) \<le> (2::rat) powi 0"
    using x1 by (simp only: xi [symmetric]) simp
  moreover have "0 \<le> int p" and "0 < int t" using assms by simp_all
  ultimately have "\<bar>float_value (float_of_frac (int p) (int t))
      - of_int (int p) / of_int (int t)\<bar> \<le> 2 powi (0 - 53)"
    by (intro float_of_frac_close) simp_all
  moreover have "(2::rat) powi (0 - 53) = 1 / 2 ^ 53"
    by (simp add: power_int_minus_divide)
  ultimately have qx: "\<bar>q - x\<bar> \<le> 1 / 2 ^ 53"
    unfolding q_def float_div_def xi by (simp only:)
  have f0: "0 \<le> fst (float_div p t)"
    unfolding float_div_def using assms by (intro float_of_frac_fst_nonneg) simp_all
  then have q0: "0 \<le> q" unfolding q_def by (rule float_value_nonneg)
  have h0: "0 \<le> fst (float_of_nat 100)" by (simp add: float_of_nat_100)
  from qx x1 have q1: "q \<le> 1 + 1 / 2 ^ 53" by linarith
  have "q * 100 \<le> 2 powi 7"
    using q1 by simp
  then have "float_value (float_div p t) * float_value (float_of_nat 100) \<le> 2 powi 7"
    unfolding q_def by (simp only: float_value_100)
  with f0 h0 have "\<bar>float_value (float_mul (float_div p t) (float_of_nat 100))
      - float_value (float_div p t) * float_value (float_of_nat 100)\<bar> \<le> 2 powi (7 - 53)"
    by (intro float_mul_close) simp_all
  moreover have "(2::rat) powi (7 - 53) = 1 / 2 ^ 46"
    by (simp add: power_int_minus_divide)
  ultimately have rq: "\<bar>r - q * 100\<bar> \<le> 1 / 2 ^ 46"
    unfolding r_def q_def by (simp only: float_value_100)
  from qx have s: "\<bar>q * 100 - x * 100\<bar> \<le> 100 / 2 ^ 53" by linarith
  have "(1::rat) / 2 ^ 46 + 100 / 2 ^ 53 \<le> 1 / 2 ^ 45" by simp
  with rq s have "\<bar>r - x * 100\<bar> \<le> 1 / 2 ^ 45" by linarith
  then show ?thesis
    unfolding r_def x_def .
qed

lemma success_rate_fst_nonneg:
  "0 \<le> fst (float_mul (float_div p t) (float_of_nat 100))"
proof (rule float_mul_fst_nonneg)
  show "0 \<le> fst (float_div p t)"
  proof (cases "t = 0")
    case True
    then show ?thesis
      by (simp add: float_div_def float_of_frac_def round_frac_def Let_def)
  next
    case False
    then show ?thesis
      unfolding float_div_def by (intro float_of_frac_fst_nonneg) simp_all
  qed
  show "0 \<le> fst (float_of_nat 100)" by (simp add: float_of_nat_100)
qed

lemma tenths_close:
  assumes "0 \<le> fst x"
  shows "\<bar>of_nat (tenths x) - float_value x * 10\<bar> \<le> 1 / 2"
proof (cases "0 \<le> snd x")
  case True
  have "0 \<le> 10 * fst x * 2 ^ nat (snd x)" using assms by simp
  then have "(of_nat (nat (10 * fst x * 2 ^ nat (snd x))) :: rat) = of_int (10 * fst x * 2 ^ nat (snd x))"
    by (simp only: of_nat_nat)
  also have "\<dots> = float_value x * 10"
    using True unfolding float_value_def by (simp add: power_int_def)
  finally have "(of_nat (tenths x) :: rat) = float_value x * 10"
    using True unfolding tenths_def by simp
  then show ?thesis by simp
next
  case False
  define r where "r = round_frac (10 * fst x) (2 ^ nat (- snd x))"
  have r0: "0 \<le> r"
    unfolding r_def using assms by (intro round_frac_nonneg) simp_all
  have "(0::int) < 2 ^ nat (- snd x)" by simp
  then have "\<bar>of_int r - (of_int (10 * fst x) / of_int (2 ^ nat (- snd x)) :: rat)\<bar> \<le> 1 / 2"
    unfolding r_def by (rule round_frac_close)
  moreover have "(of_int (10 * fst x) / of_int (2 ^ nat (- snd x)) :: rat) = float_value x * 10"
    using False unfolding float_value_def by (simp add: power_int_def field_simps)
  moreover have "(of_nat (tenths x) :: rat) = of_int r"
    using False r0 unfolding tenths_def r_def by simp
  ultimately show ?thesis by (simp only:)
qed

lemma format_1f_shape:
  assumes "0 \<le> fst x"
  shows "\<exists>whole digit. digit < 10
      \<and> format_1f x = str_nat whole @ ''.'' @ [digit_char digit]
      \<and> \<bar>(of_nat whole + of_nat digit / 10) - float_value x\<bar> \<le> 1 / 20"
proof -
  define t where "t = tenths x"
  have "(of_nat t :: rat) = of_nat (t div 10 * 10 + t mod 10)" by simp
  then have split: "(of_nat t :: rat) = of_nat (t div 10) * 10 + of_nat (t mod 10)"
    by (simp only: of_nat_add of_nat_mult of_nat_numeral)
  have close: "\<bar>of_nat t - float_value x * 10\<bar> \<le> 1 / 2"
    unfolding t_def using assms by (rule tenths_close)
  have "\<bar>(of_nat (t div 10) + of_nat (t mod 10) / 10) - float_value x\<bar> \<le> 1 / 20"
    using close unfolding split by linarith
  moreover have "format_1f x = str_nat (t div 10) @ ''.'' @ [digit_char (t mod 10)]"
    unfolding format_1f_def t_def [symmetric] by (simp add: str_nat_digit)
  moreover have "t mod 10 < 10" by simp
  ultimately show ?thesis by blast
qed

lemma generate_test_report_eq:
  "results \<noteq> [] \<Longrightarrow>
   generate_test_report results =
     Inr \<lparr>total_tests = length results,
          passed_tests = length (filter (\<lambda>r. status r = ''PASS'') results),
          failed_tests = length (filter (\<lambda>r. status r = ''FAIL'') results),
          error_tests = length (filter (\<lambda>r. status r = ''ERROR'') results),
          success_rate =
            float_mul (float_div (length (filter (\<lambda>r. status r = ''PASS'') results))
              (length results)) (float_of_nat 100)\<rparr>"
  by (simp add: generate_test_report_def Let_def)

lemma decimal_value_snoc:
  "decimal_value (ds @ [c]) = 10 * decimal_value ds + (of_char c - 48)"
  by (simp add: decimal_value_def)

lemma of_char_digit_char: "k < 10 \<Longrightarrow> (of_char (digit_char k) :: nat) = 48 + k"
  by (simp add: digit_char_def)

lemma decimal_value_str_nat: "decimal_value (str_nat n) = n"
proof (induction n rule: str_nat.induct)
  case (1 n)
  show ?case
  proof (cases "n < 10")
    case True
    then have "str_nat n = [digit_char n]" by (rule str_nat_digit)
    with True show ?thesis
      by (simp add: of_char_digit_char decimal_value_def)
  next
    case False
    then have s: "str_nat n = str_nat (n div 10) @ [digit_char (n mod 10)]"
      by (subst str_nat.simps) simp
    have "decimal_value (str_nat (n div 10)) = n div 10"
      using False by (rule "1.IH")
    then have "decimal_value (str_nat (n div 10) @ [digit_char (n mod 10)]) = n"
      by (simp add: decimal_value_snoc of_char_digit_char)
    then show ?thesis by (simp only: s)
  qed
qed

lemma is_digit_str_nat: "list_all is_digit (str_nat n)"
proof (induction n rule: str_nat.induct)
  case (1 n)
  show ?case
  proof (cases "n < 10")
    case True
    then have "str_nat n = [digit_char n]" by (rule str_nat_digit)
    with True show ?thesis
      by (simp add: is_digit_def of_char_digit_char)
  next
    case False
    then have s: "str_nat n = str_nat (n div 10) @ [digit_char (n mod 10)]"
      by (subst str_nat.simps) simp
    have "list_all is_digit (str_nat (n div 10))"
      using False by (rule "1.IH")
    then have "list_all is_digit (str_nat (n div 10) @ [digit_char (n mod 10)])"
      by (simp add: is_digit_def of_char_digit_char)
    then show ?thesis by (simp only: s)
  qed
qed

lemma report_rate_example:
  "float_mul (float_div 2 4) (float_of_nat 100) = (7036874417766400, - 47)"
  by code_simp

lemma report_rate_value: "float_value (7036874417766400, - 47) = 50"
  by (simp add: float_value_def)

lemma report_lines_example:
  "report_lines \<lparr>total_tests = 4, passed_tests = 2, failed_tests = 1, error_tests = 1,
      success_rate = (7036874417766400, - 47)\<rparr> =
     [''Total Tests: 4'', ''Passed: 2'', ''Failed: 1'', ''Errors: 1'', ''Success Rate: 50.0%'']"
  by code_simp

lemma format_1f_23_of_80: "format_1f (float_mul (float_div 23 80) (float_of_nat 100)) = ''28.7''"
  by code_simp

lemma format_1f_49_of_80: "format_1f (float_mul (float_div 49 80) (float_of_nat 100)) = ''61.3''"
  by code_simp

section \<open>Properties\<close>

subsection \<open>Selector generation\<close>

text \<open>
  Claim C1, as the specification states it: for a non-empty list of attribute hints the
  generator returns \<open>3 \<times> |hints| + 2\<close> selectors, the two selectors built from the
  role name alone being appended once at the end. The code does not do that. For the
  three hints of the user field it returns fifteen selectors, not eleven.
\<close>

theorem generate_possible_selectors_count_counterexample:
  "length (generate_possible_selectors ''username'' [''id'', ''name'', ''placeholder''])
     \<noteq> 3 * length [''id'', ''name'', ''placeholder''] + 2"
  by (simp add: generate_possible_selectors_def attr_selectors_def)

text \<open>
  Claim C1, amended: for every role and every list of hints the generator returns
  \<open>5 \<times> |hints|\<close> selectors: for every hint, in hint order, a substring-match
  selector, an exact-match selector, a tag-qualified substring selector, and then the
  id-style and the class-style selector of the role name, which are thus repeated
  after every hint.
\<close>

theorem generate_possible_selectors_shape:
  "generate_possible_selectors element_type attributes =
     concat (map (\<lambda>attr.
       [''['' @ attr @ ''*=\"'' @ element_type @ ''\"]'',
        ''['' @ attr @ ''=\"'' @ element_type @ ''\"]'',
        ''input['' @ attr @ ''*=\"'' @ element_type @ ''\"]'',
        ''#'' @ element_type,
        ''.'' @ element_type]) attributes)
   \<and> length (generate_possible_selectors element_type attributes) = 5 * length attributes"
proof -
  have eq: "generate_possible_selectors element_type attributes =
      concat (map (attr_selectors element_type) attributes)"
    by (simp add: generate_possible_selectors_def selectors_loop_concat)
  have fn: "attr_selectors element_type = (\<lambda>attr.
       [''['' @ attr @ ''*=\"'' @ element_type @ ''\"]'',
        ''['' @ attr @ ''=\"'' @ element_type @ ''\"]'',
        ''input['' @ attr @ ''*=\"'' @ element_type @ ''\"]'',
        ''#'' @ element_type,
        ''.'' @ element_type])"
    by (rule ext) (simp add: attr_selectors_def)
  show ?thesis
    using eq length_concat_attr_selectors [of element_type attributes] by (simp add: fn)
qed

subsection \<open>Outcome classification\<close>

text \<open>
  Claim C8, as the specification states it: the classifier receives its two keyword
  sets from the caller and classifies over exactly those sets. The code has no such
  parameter. With the single success keyword \<open>ok\<close> supplied, a classifier that used it
  would answer \<open>success\<close> on a page that shows \<open>ok\<close>; the code answers
  \<open>failure\<close>.
\<close>

theorem login_result_supplied_keywords_counterexample:
  "login_result ''https://example.com/ok'' ''<p>ok</p>''
     \<noteq> classify_spec ''https://example.com/ok'' ''<p>ok</p>'' [''ok''] []"
  by code_simp

text \<open>
  Claim C8, amended: the two keyword lists are constants embedded in the classifier,
  \<open>dashboard, welcome, success, home\<close> for success and \<open>error, invalid, failure,
  login\<close> for failure; for every URL and page content the result is the
  classification over exactly these two lists.
\<close>

theorem login_result_embedded_keywords:
  "login_result current_url content =
     classify_spec current_url content
       [''dashboard'', ''welcome'', ''success'', ''home'']
       [''error'', ''invalid'', ''failure'', ''login'']"
  by (simp add: login_result_def classify_spec_def Let_def indicator_loop_iff keyword_found_iff
      success_indicators_def failure_indicators_def del: set_simps)

subsection \<open>One scenario\<close>

text \<open>
  Claim C2: in the result of every executed scenario the status is \<open>PASS\<close> exactly when
  \<open>actual\<close> equals \<open>expected\<close> and no step raised; the status is \<open>ERROR\<close> exactly when
  a step of the scenario raised, and then \<open>actual\<close> is the text \<open>error\<close>, never
  \<open>success\<close> or \<open>failure\<close>. When no step raised, \<open>actual\<close> is the classifier's answer
  and the status is \<open>PASS\<close> or \<open>FAIL\<close>.
\<close>

theorem execute_login_test_status:
  assumes "execute_login_test d tc s = (r, s')"
  shows "(status r = ''PASS'') = (actual r = expected r \<and> \<not> isl (fst (login_steps d tc s)))
    \<and> (status r = ''ERROR'') = isl (fst (login_steps d tc s))
    \<and> (isl (fst (login_steps d tc s)) \<longrightarrow>
         actual r = ''error'' \<and> actual r \<noteq> ''success'' \<and> actual r \<noteq> ''failure'')
    \<and> (\<not> isl (fst (login_steps d tc s)) \<longrightarrow>
         fst (login_steps d tc s) = Inr (actual r)
         \<and> (actual r = ''success'' \<or> actual r = ''failure'')
         \<and> (status r = ''PASS'' \<or> status r = ''FAIL''))
    \<and> expected r = tc_expected_result tc"
proof -
  obtain x s1 where body: "login_steps d tc s = (x, s1)"
    by (cases "login_steps d tc s")
  show ?thesis
  proof (cases x)
    case (Inl e)
    with body assms have "r = \<lparr>test_case = tc_name tc, username = tc_username tc,
        expected = tc_expected_result tc, actual = ''error'', status = ''ERROR'',
        error = Some (str_exn e), timestamp = time_strftime d s1\<rparr>"
      by (auto simp add: execute_login_test_def)
    with body Inl show ?thesis by simp
  next
    case (Inr a)
    with body have "a = ''success'' \<or> a = ''failure''"
      by (simp add: login_steps_Inr)
    moreover from Inr body assms have "r = \<lparr>test_case = tc_name tc, username = tc_username tc,
        expected = tc_expected_result tc, actual = a,
        status = (if a = tc_expected_result tc then ''PASS'' else ''FAIL''),
        error = None, timestamp = time_strftime d s1\<rparr>"
      by (auto simp add: execute_login_test_def)
    ultimately show ?thesis using body Inr by auto
  qed
qed

theorem execute_login_test_status_witness:
  "execute_login_test login_page
      \<lparr>tc_name = ''Valid Credentials'', tc_username = ''testuser'',
       tc_password = ''correctpassword'', tc_expected_result = ''success''\<rparr>
      \<lparr>address = [], user_text = [], pass_text = []\<rparr> =
     (\<lparr>test_case = ''Valid Credentials'', username = ''testuser'', expected = ''success'',
       actual = ''success'', status = ''PASS'', error = None,
       timestamp = ''2024-01-01 00:00:00''\<rparr>,
      \<lparr>address = ''https://example.com/Dashboard'', user_text = ''testuser'',
       pass_text = ''correctpassword''\<rparr>)
   \<and> \<not> isl (fst (login_steps login_page
      \<lparr>tc_name = ''Valid Credentials'', tc_username = ''testuser'',
       tc_password = ''correctpassword'', tc_expected_result = ''success''\<rparr>
      \<lparr>address = [], user_text = [], pass_text = []\<rparr>))
   \<and> execute_login_test blank_page
      \<lparr>tc_name = ''Valid Credentials'', tc_username = ''testuser'',
       tc_password = ''correctpassword'', tc_expected_result = ''success''\<rparr> 0 =
     (\<lparr>test_case = ''Valid Credentials'', username = ''testuser'', expected = ''success'',
       actual = ''error'', status = ''ERROR'',
       error = Some ''Could not locate username element'',
       timestamp = ''2024-01-01 00:00:00''\<rparr>, 17)
   \<and> isl (fst (login_steps blank_page
      \<lparr>tc_name = ''Valid Credentials'', tc_username = ''testuser'',
       tc_password = ''correctpassword'', tc_expected_result = ''success''\<rparr> 0))"
proof -
  let ?tc = "\<lparr>tc_name = ''Valid Credentials'', tc_username = ''testuser'',
       tc_password = ''correctpassword'', tc_expected_result = ''success''\<rparr>"
  have a: "execute_login_test login_page ?tc \<lparr>address = [], user_text = [], pass_text = []\<rparr> =
     (\<lparr>test_case = ''Valid Credentials'', username = ''testuser'', expected = ''success'',
       actual = ''success'', status = ''PASS'', error = None,
       timestamp = ''2024-01-01 00:00:00''\<rparr>,
      \<lparr>address = ''https://example.com/Dashboard'', user_text = ''testuser'',
       pass_text = ''correctpassword''\<rparr>)"
    by code_simp
  have b: "execute_login_test blank_page ?tc 0 =
     (\<lparr>test_case = ''Valid Credentials'', username = ''testuser'', expected = ''success'',
       actual = ''error'', status = ''ERROR'',
       error = Some ''Could not locate username element'',
       timestamp = ''2024-01-01 00:00:00''\<rparr>, 17)"
    by code_simp
  have "\<not> isl (fst (login_steps login_page ?tc \<lparr>address = [], user_text = [], pass_text = []\<rparr>))"
    using execute_login_test_status [OF a] by simp
  moreover have "isl (fst (login_steps blank_page ?tc 0))"
    using execute_login_test_status [OF b] by simp
  ultimately show ?thesis using a b by simp
qed

subsection \<open>Element location\<close>

text \<open>
  Claim C6, as the specification states it, ends: no candidate is retried within the
  same resolution call. The generated list repeats the id-style and the class-style
  selector of the role name after every hint, and the resolver probes the list entry
  by entry. On a page where every wait times out, the resolution of the user field
  with its three hints waits for \<open>#username\<close> three times.
\<close>

theorem find_element_with_ai_retry_counterexample:
  "count_list
     (css_lookups (snd (snd (find_element_with_ai (recording blank_page) ''username''
        [''id'', ''name'', ''placeholder''] (0, [])))))
     ''#username'' = 3
   \<and> \<not> distinct
     (css_lookups (snd (snd (find_element_with_ai (recording blank_page) ''username''
        [''id'', ''name'', ''placeholder''] (0, [])))))"
  by code_simp

text \<open>
  Claim C6, amended: when the wait for every generated selector times out, the
  resolver makes the direct lookup by id with the role name and, when that finds
  nothing, the direct lookup by name with the role name, and returns the first element
  found; when both find nothing it raises the exception whose text carries the role.
  The log of a recording driver shows the lookups: every entry of the generated list
  once, in generation order, then the fallbacks. When a selector matches after all
  before it timed out, the resolver returns that element and looks no further. On any
  page the selectors probed are a prefix of the generated list: one pass, no entry
  of the list probed twice; a selector that stands in the list several times is
  probed at each of its places.
\<close>

theorem find_element_with_ai_fallbacks:
  "(all_time_out d (generate_possible_selectors element_type attributes) s = Some s1 \<longrightarrow>
      find_element_with_ai (recording d) element_type attributes (s, []) =
       (case find_element_by_id d element_type s1 of
          (Inr element, s2) \<Rightarrow>
            (Inr element, s2,
             map ByCssSelector (generate_possible_selectors element_type attributes)
               @ [ById element_type])
        | (Inl (NoSuchElementException m), s2) \<Rightarrow>
            (case find_element_by_name d element_type s2 of
               (Inr element, s3) \<Rightarrow>
                 (Inr element, s3,
                  map ByCssSelector (generate_possible_selectors element_type attributes)
                    @ [ById element_type, ByName element_type])
             | (Inl (NoSuchElementException m'), s3) \<Rightarrow>
                 (Inl (Exception (''Could not locate '' @ element_type @ '' element'')), s3,
                  map ByCssSelector (generate_possible_selectors element_type attributes)
                    @ [ById element_type, ByName element_type])
             | (Inl e, s3) \<Rightarrow>
                 (Inl e, s3,
                  map ByCssSelector (generate_possible_selectors element_type attributes)
                    @ [ById element_type, ByName element_type]))
        | (Inl e, s2) \<Rightarrow>
            (Inl e, s2,
             map ByCssSelector (generate_possible_selectors element_type attributes)
               @ [ById element_type])))
   \<and> (generate_possible_selectors role hints = before @ selector # rest
        \<and> all_time_out da before sa = Some sb
        \<and> wait_until_presence da selector sb = (Inr found, sc)
      \<longrightarrow> find_element_with_ai (recording da) role hints (sa, []) =
            (Inr found, sc, map ByCssSelector (before @ [selector])))
   \<and> prefix (css_lookups (snd (snd (find_element_with_ai (recording db) role_b hints_b (sd, [])))))
        (generate_possible_selectors role_b hints_b)"
proof (intro conjI impI)
  assume a: "all_time_out d (generate_possible_selectors element_type attributes) s = Some s1"
  show "find_element_with_ai (recording d) element_type attributes (s, []) =
       (case find_element_by_id d element_type s1 of
          (Inr element, s2) \<Rightarrow>
            (Inr element, s2,
             map ByCssSelector (generate_possible_selectors element_type attributes)
               @ [ById element_type])
        | (Inl (NoSuchElementException m), s2) \<Rightarrow>
            (case find_element_by_name d element_type s2 of
               (Inr element, s3) \<Rightarrow>
                 (Inr element, s3,
                  map ByCssSelector (generate_possible_selectors element_type attributes)
                    @ [ById element_type, ByName element_type])
             | (Inl (NoSuchElementException m'), s3) \<Rightarrow>
                 (Inl (Exception (''Could not locate '' @ element_type @ '' element'')), s3,
                  map ByCssSelector (generate_possible_selectors element_type attributes)
                    @ [ById element_type, ByName element_type])
             | (Inl e, s3) \<Rightarrow>
                 (Inl e, s3,
                  map ByCssSelector (generate_possible_selectors element_type attributes)
                    @ [ById element_type, ByName element_type]))
        | (Inl e, s2) \<Rightarrow>
            (Inl e, s2,
             map ByCssSelector (generate_possible_selectors element_type attributes)
               @ [ById element_type]))"
    using try_selectors_all_time_out [OF a, of "[]"]
      direct_methods_recording [of d element_type s1
        "map ByCssSelector (generate_possible_selectors element_type attributes)"]
    by (simp add: find_element_with_ai_def Let_def)
next
  assume b: "generate_possible_selectors role hints = before @ selector # rest
        \<and> all_time_out da before sa = Some sb
        \<and> wait_until_presence da selector sb = (Inr found, sc)"
  then have b1: "all_time_out da before sa = Some sb"
    and b2: "wait_until_presence da selector sb = (Inr found, sc)"
    by simp_all
  have "try_selectors (recording da) (before @ selector # rest) (sa, []) =
      (Inr (Some found), sc, [] @ map ByCssSelector (before @ [selector]))"
    by (rule try_selectors_first_match [OF b1 b2])
  with b show "find_element_with_ai (recording da) role hints (sa, []) =
            (Inr found, sc, map ByCssSelector (before @ [selector]))"
    by (simp add: find_element_with_ai_def Let_def)
next
  show "prefix (css_lookups (snd (snd (find_element_with_ai (recording db) role_b hints_b (sd, [])))))
        (generate_possible_selectors role_b hints_b)"
    by (rule find_element_trail_prefix)
qed

theorem find_element_with_ai_fallbacks_witness:
  "all_time_out named_page (generate_possible_selectors ''username'' [''id'', ''name'']) 0 = Some 10
   \<and> find_element_with_ai (recording named_page) ''username'' [''id'', ''name''] (0, []) =
       (Inr ''the user field'', 12,
        map ByCssSelector (generate_possible_selectors ''username'' [''id'', ''name''])
          @ [ById ''username'', ByName ''username''])
   \<and> all_time_out blank_page (generate_possible_selectors ''login'' [''id'', ''class'', ''value'']) 0
       = Some 15
   \<and> find_element_with_ai (recording blank_page) ''login'' [''id'', ''class'', ''value''] (0, []) =
       (Inl (Exception ''Could not locate login element''), 17,
        map ByCssSelector (generate_possible_selectors ''login'' [''id'', ''class'', ''value''])
          @ [ById ''login'', ByName ''login''])
   \<and> generate_possible_selectors ''username'' [''id'', ''name'', ''placeholder''] =
       attr_selectors ''username'' ''id'' @ ''[name*=\"username\"]''
         # (tl (attr_selectors ''username'' ''name'') @ attr_selectors ''username'' ''placeholder'')
   \<and> all_time_out login_page (attr_selectors ''username'' ''id'')
        \<lparr>address = [], user_text = [], pass_text = []\<rparr> =
       Some \<lparr>address = [], user_text = [], pass_text = []\<rparr>
   \<and> wait_until_presence login_page ''[name*=\"username\"]''
        \<lparr>address = [], user_text = [], pass_text = []\<rparr> =
       (Inr ''username'', \<lparr>address = [], user_text = [], pass_text = []\<rparr>)
   \<and> find_element_with_ai (recording login_page) ''username'' [''id'', ''name'', ''placeholder'']
        (\<lparr>address = [], user_text = [], pass_text = []\<rparr>, []) =
       (Inr ''username'', \<lparr>address = [], user_text = [], pass_text = []\<rparr>,
        map ByCssSelector (attr_selectors ''username'' ''id'' @ [''[name*=\"username\"]'']))"
proof -
  let ?s0 = "\<lparr>address = [], user_text = [], pass_text = []\<rparr>"
  have a: "all_time_out named_page (generate_possible_selectors ''username'' [''id'', ''name'']) 0
      = Some 10"
    by code_simp
  have ai: "find_element_by_id named_page ''username'' 10 =
      (Inl (NoSuchElementException ''Message: no such element''), 11)"
    by code_simp
  have an: "find_element_by_name named_page ''username'' 11 = (Inr ''the user field'', 12)"
    by code_simp
  have b: "all_time_out blank_page (generate_possible_selectors ''login'' [''id'', ''class'', ''value'']) 0
      = Some 15"
    by code_simp
  have bi: "find_element_by_id blank_page ''login'' 15 =
      (Inl (NoSuchElementException ''Message: no such element''), 16)"
    by code_simp
  have bn: "find_element_by_name blank_page ''login'' 16 =
      (Inl (NoSuchElementException ''Message: no such element''), 17)"
    by code_simp
  have c1: "generate_possible_selectors ''username'' [''id'', ''name'', ''placeholder''] =
       attr_selectors ''username'' ''id'' @ ''[name*=\"username\"]''
         # (tl (attr_selectors ''username'' ''name'') @ attr_selectors ''username'' ''placeholder'')"
    by code_simp
  have c2: "all_time_out login_page (attr_selectors ''username'' ''id'') ?s0 = Some ?s0"
    by code_simp
  have c3: "wait_until_presence login_page ''[name*=\"username\"]'' ?s0 = (Inr ''username'', ?s0)"
    by code_simp
  note t1 = find_element_with_ai_fallbacks
    [where d = named_page and element_type = "''username''" and attributes = "[''id'', ''name'']"
       and s = 0 and ?s1.0 = 10
       and da = login_page and role = "''username''" and hints = "[''id'', ''name'', ''placeholder'']"
       and before = "attr_selectors ''username'' ''id''" and selector = "''[name*=\"username\"]''"
       and rest = "tl (attr_selectors ''username'' ''name'') @ attr_selectors ''username'' ''placeholder''"
       and sa = ?s0 and sb = ?s0 and sc = ?s0 and found = "''username''"
       and db = blank_page and role_b = "[]" and hints_b = "[]" and sd = 0]
  note t2 = find_element_with_ai_fallbacks
    [where d = blank_page and element_type = "''login''" and attributes = "[''id'', ''class'', ''value'']"
       and s = 0 and ?s1.0 = 15
       and da = login_page and role = "''username''" and hints = "[''id'', ''name'', ''placeholder'']"
       and before = "attr_selectors ''username'' ''id''" and selector = "''[name*=\"username\"]''"
       and rest = "tl (attr_selectors ''username'' ''name'') @ attr_selectors ''username'' ''placeholder''"
       and sa = ?s0 and sb = ?s0 and sc = ?s0 and found = "''username''"
       and db = blank_page and role_b = "[]" and hints_b = "[]" and sd = 0]
  have ra: "find_element_with_ai (recording named_page) ''username'' [''id'', ''name''] (0, []) =
       (Inr ''the user field'', 12,
        map ByCssSelector (generate_possible_selectors ''username'' [''id'', ''name''])
          @ [ById ''username'', ByName ''username''])"
    using t1 [THEN conjunct1, rule_format, OF a] by (simp add: ai an)
  have rb: "find_element_with_ai (recording blank_page) ''login'' [''id'', ''class'', ''value''] (0, []) =
       (Inl (Exception ''Could not locate login element''), 17,
        map ByCssSelector (generate_possible_selectors ''login'' [''id'', ''class'', ''value''])
          @ [ById ''login'', ByName ''login''])"
    using t2 [THEN conjunct1, rule_format, OF b] by (simp add: bi bn)
  have rc: "find_element_with_ai (recording login_page) ''username'' [''id'', ''name'', ''placeholder'']
        (?s0, []) =
       (Inr ''username'', ?s0,
        map ByCssSelector (attr_selectors ''username'' ''id'' @ [''[name*=\"username\"]'']))"
    using t1 [THEN conjunct2, THEN conjunct1, rule_format, OF conjI [OF c1 conjI [OF c2 c3]]] .
  show ?thesis
    using a b c1 c2 c3 ra rb rc by blast
qed

text \<open>
  Claim C9: for an empty list of hints the generator returns the empty list, not the
  two selectors of the role name, so the resolver probes no selector and its result
  is that of the two direct lookups, by id and then by name.
\<close>

theorem find_element_with_ai_no_hints:
  "generate_possible_selectors element_type [] = []
   \<and> find_element_with_ai d element_type [] s = direct_methods d element_type s
   \<and> find_element_with_ai (recording d) element_type [] (s, []) =
       (case find_element_by_id d element_type s of
          (Inr element, s2) \<Rightarrow> (Inr element, s2, [ById element_type])
        | (Inl (NoSuchElementException m), s2) \<Rightarrow>
            (case find_element_by_name d element_type s2 of
               (Inr element, s3) \<Rightarrow> (Inr element, s3, [ById element_type, ByName element_type])
             | (Inl (NoSuchElementException m'), s3) \<Rightarrow>
                 (Inl (Exception (''Could not locate '' @ element_type @ '' element'')), s3,
                  [ById element_type, ByName element_type])
             | (Inl e, s3) \<Rightarrow> (Inl e, s3, [ById element_type, ByName element_type]))
        | (Inl e, s2) \<Rightarrow> (Inl e, s2, [ById element_type]))"
proof -
  obtain r1 s2 where i: "find_element_by_id d element_type s = (r1, s2)"
    by (cases "find_element_by_id d element_type s")
  obtain r2 s3 where n: "find_element_by_name d element_type s2 = (r2, s3)"
    by (cases "find_element_by_name d element_type s2")
  have "direct_methods (recording d) element_type (s, []) =
       (case find_element_by_id d element_type s of
          (Inr element, s2) \<Rightarrow> (Inr element, s2, [ById element_type])
        | (Inl (NoSuchElementException m), s2) \<Rightarrow>
            (case find_element_by_name d element_type s2 of
               (Inr element, s3) \<Rightarrow> (Inr element, s3, [ById element_type, ByName element_type])
             | (Inl (NoSuchElementException m'), s3) \<Rightarrow>
                 (Inl (Exception (''Could not locate '' @ element_type @ '' element'')), s3,
                  [ById element_type, ByName element_type])
             | (Inl e, s3) \<Rightarrow> (Inl e, s3, [ById element_type, ByName element_type]))
        | (Inl e, s2) \<Rightarrow> (Inl e, s2, [ById element_type]))"
    using i n
    by (simp add: direct_methods_def recording_by_id recording_by_name
        split: sum.splits exn.splits)
  then show ?thesis
    by (simp add: find_element_no_hints generate_possible_selectors_def)
qed

theorem find_element_with_ai_no_hints_witness:
  "find_element_with_ai (recording named_page) ''username'' [] (0, []) =
     (Inr ''the user field'', 2, [ById ''username'', ByName ''username''])"
proof -
  have i: "find_element_by_id named_page ''username'' 0 =
      (Inl (NoSuchElementException ''Message: no such element''), 1)"
    by code_simp
  have n: "find_element_by_name named_page ''username'' 1 = (Inr ''the user field'', 2)"
    by code_simp
  show ?thesis
    using find_element_with_ai_no_hints [of "''username''" named_page 0] i n
    by simp
qed

end
